theory Spec2Isabelle
  imports Complex_Main "HOL-Library.Word"
begin

section \<open>Values exchanged with the external libraries\<close>

text \<open>
  The WebSocket file of package \<open>server\<close> is written against gorilla/websocket,
  gjson, encoding/json and the bot's own packages. Those are not part of the file that is
  verified here; the model fixes, for each of them, the observable behaviour the program
  relies on and says so at the definition.
\<close>

type_synonym bytes = string
type_synonym addr = nat
type_synonym int64 = "64 word"

text \<open>\<open>time.Duration\<close> is an \<open>int64\<close> count of nanoseconds.\<close>

type_synonym Duration = "64 word"

text \<open>
  A JSON value as gjson sees it. A number is held by gjson as a \<open>float64\<close>; every finite
  \<open>float64\<close> is a rational, and the program only passes numbers through.
\<close>

datatype json =
    JNull
  | JBool bool
  | JNumber rat
  | JString string
  | JArray "json list"
  | JObject "(string \<times> json) list"

text \<open>\<open>gjson.Result\<close>: the member found, or the zero result when the path matches nothing.\<close>

type_synonym Result = "json option"

text \<open>\<open>global.MSG\<close> is \<open>map[string]interface{}\<close>.\<close>

type_synonym MSG = "string \<rightharpoonup> json"







text \<open>Decimal printing, as \<open>%d\<close> and \<open>strconv.FormatInt(_, 10)\<close> do for an \<open>int64\<close>.\<close>

definition digit :: "nat \<Rightarrow> char" where
  "digit d =
     (if d = 0 then CHR ''0'' else if d = 1 then CHR ''1'' else if d = 2 then CHR ''2''
      else if d = 3 then CHR ''3'' else if d = 4 then CHR ''4'' else if d = 5 then CHR ''5''
      else if d = 6 then CHR ''6'' else if d = 7 then CHR ''7'' else if d = 8 then CHR ''8''
      else CHR ''9'')"

fun show_nat :: "nat \<Rightarrow> string" where
  "show_nat n = (if n < 10 then [digit n] else show_nat (n div 10) @ [digit (n mod 10)])"

declare show_nat.simps [simp del]

definition FormatInt :: "int64 \<Rightarrow> string" where
  "FormatInt v =
     (if sint v < 0 then CHR ''-'' # show_nat (nat (- sint v)) else show_nat (nat (sint v)))"

section \<open>Sockets\<close>

text \<open>The two data message types of gorilla/websocket.\<close>

definition TextMessage :: int where
  "TextMessage = 1"

definition BinaryMessage :: int where
  "BinaryMessage = 2"

text \<open>
  What a frame carries: bytes written as they are, or the JSON encoding of a response map
  (\<open>json.NewEncoder(writer).Encode(ret)\<close>).
\<close>

datatype payload = Raw bytes | Encoded MSG

type_synonym frame = "int \<times> payload"

text \<open>
  What the peer sends next: a failure of \<open>NextReader\<close>, or a message of some type whose
  body either reads completely (\<open>Some\<close>) or fails in \<open>ReadFrom\<close> (\<open>None\<close>).
\<close>

datatype incoming = ReaderError | Message int "bytes option"

datatype error = ErrWrite | ErrRead | ErrUpgrade | ErrDial

text \<open>
  One \<open>*websocket.Conn\<close>. \<open>broken\<close> says that the transport has failed, so that a write
  returns an error; \<open>closed\<close> that \<open>Close\<close> has been called; \<open>writeErr\<close> that an
  earlier write has failed (gorilla keeps the first write error and refuses to begin another
  message); \<open>outbox\<close> holds the frames the peer has received, in order; \<open>inbox\<close> what
  the peer has sent and the program has not read yet; \<open>wcalls\<close> counts the messages the
  program has tried to write, successfully or not.
\<close>

record Conn =
  broken :: bool
  closed :: bool
  writeErr :: bool
  outbox :: "frame list"
  inbox :: "incoming list"
  wcalls :: nat

text \<open>\<open>api.Handler\<close> middleware; the only one the program installs is the rate limiter.\<close>

datatype handler = rateLimit rat int

text \<open>\<open>api.Caller\<close>: the ordered middleware of one dispatcher.\<close>

type_synonym Caller = "handler list"

definition NewCaller :: Caller where
  "NewCaller = []"

definition Use :: "Caller \<Rightarrow> handler \<Rightarrow> Caller" where
  "Use c h = c @ [h]"

text \<open>
  \<open>wsConn\<close>. The wrapper is never modified after it is built, so it is a value; the socket
  it points to is in the store. The mutex \<open>mu\<close> has no counterpart: every function of the
  model runs as one atomic step.
\<close>

record wsConn =
  conn :: addr
  apiCaller :: Caller

text \<open>\<open>http.Header\<close> is \<open>map[string][]string\<close>.\<close>

type_synonym header = "string \<rightharpoonup> string list"

text \<open>The role slot a \<open>**wsConn\<close> argument points to: \<open>&c.universal\<close> or \<open>&c.event\<close>.\<close>

datatype slot = universal_slot | event_slot

text \<open>What a \<open>go\<close> statement starts.\<close>

datatype goroutine =
    HandleRequest wsConn bytes
  | ListenAPI string string wsConn
  | Connect string string "slot option"

text \<open>The callbacks handed to \<open>bot.OnEventPush\<close>.\<close>

datatype pusher = ServerPush | ClientPush string string slot

text \<open>The calls to the outside that leave no mark on a socket, in the order they happen.\<close>

datatype action =
    Dial string header
  | Sleep Duration
  | Go goroutine
  | WriteHeader int
  | OnEventPush pusher
  | ListenAndServe string

text \<open>
  The world the program runs in: the store of sockets (addresses below \<open>nsocks\<close> are
  allocated), what the \<open>n\<close>-th dial of the process will meet at a URL (\<open>None\<close>: the dial
  fails), the number of dials made, the wall clock in nanoseconds, and the trace.
\<close>

record world =
  socks :: "addr \<Rightarrow> Conn"
  nsocks :: nat
  net :: "nat \<Rightarrow> string \<Rightarrow> Conn option"
  ndials :: nat
  clock :: int
  trace :: "action list"

definition emit :: "action \<Rightarrow> world \<Rightarrow> world" where
  "emit a w = w\<lparr>trace := trace w @ [a]\<rparr>"

definition alloc :: "Conn \<Rightarrow> world \<Rightarrow> addr \<times> world" where
  "alloc k w = (nsocks w, w\<lparr>socks := (socks w)(nsocks w := k), nsocks := Suc (nsocks w)\<rparr>)"

text \<open>\<open>Conn.WriteMessage\<close>: fails on a broken or closed socket, else the peer gets the frame.\<close>

definition flush :: "addr \<Rightarrow> frame \<Rightarrow> world \<Rightarrow> error option \<times> world" where
  "flush a f w =
     (let k = socks w a in
      if broken k \<or> closed k \<or> writeErr k
      then (Some ErrWrite, w\<lparr>socks := (socks w)(a := k\<lparr>writeErr := True\<rparr>)\<rparr>)
      else (None, w\<lparr>socks := (socks w)(a := k\<lparr>outbox := outbox k @ [f]\<rparr>)\<rparr>))"

definition begin_message :: "addr \<Rightarrow> world \<Rightarrow> world" where
  "begin_message a w = w\<lparr>socks := (socks w)(a := (socks w a)\<lparr>wcalls := Suc (wcalls (socks w a))\<rparr>)\<rparr>"

definition WriteMessage :: "addr \<Rightarrow> int \<Rightarrow> payload \<Rightarrow> world \<Rightarrow> error option \<times> world" where
  "WriteMessage a t p w = flush a (t, p) (begin_message a w)"


text \<open>\<open>Conn.Close\<close>.\<close>

definition Conn_Close :: "addr \<Rightarrow> world \<Rightarrow> world" where
  "Conn_Close a w = w\<lparr>socks := (socks w)(a := (socks w a)\<lparr>closed := True\<rparr>)\<rparr>"

text \<open>\<open>time.Sleep\<close>: returns at once for a duration that is not positive.\<close>

definition time_Sleep :: "Duration \<Rightarrow> world \<Rightarrow> world" where
  "time_Sleep d w =
     emit (Sleep d) (w\<lparr>clock := clock w + (if 0 < sint d then sint d else 0)\<rparr>)"

text \<open>\<open>time.Now().Unix()\<close>.\<close>

definition Unix :: "world \<Rightarrow> int64" where
  "Unix w = word_of_int (clock w div 1000000000)"

section \<open>The connection wrapper\<close>

definition WriteText :: "wsConn \<Rightarrow> bytes \<Rightarrow> world \<Rightarrow> error option \<times> world" where
  "WriteText c b w = WriteMessage (conn c) TextMessage (Raw b) w"

definition wsConn_Close :: "wsConn \<Rightarrow> world \<Rightarrow> world" where
  "wsConn_Close c w = Conn_Close (conn c) w"

text \<open>
  \<open>Conn.NextReader\<close>. A closed socket fails; with nothing to read the call blocks; else
  the next entry of the inbox is consumed.
\<close>

datatype reading = WouldBlock | ReadFailed | Reader int "bytes option"

definition NextReader :: "addr \<Rightarrow> world \<Rightarrow> reading \<times> world" where
  "NextReader a w =
     (let k = socks w a in
      if closed k then (ReadFailed, w)
      else case inbox k of
             [] \<Rightarrow> (WouldBlock, w)
           | ReaderError # rest \<Rightarrow> (ReadFailed, w\<lparr>socks := (socks w)(a := k\<lparr>inbox := rest\<rparr>)\<rparr>)
           | Message t body # rest \<Rightarrow>
               (Reader t body, w\<lparr>socks := (socks w)(a := k\<lparr>inbox := rest\<rparr>)\<rparr>))"

text \<open>
  How a call stands when the model stops following it: it has returned, it is still
  running (blocked in a read, or still redialling), or it has panicked.
\<close>

datatype 'a run = Returned 'a | Running 'a | Panicked 'a

fun state_of :: "'a run \<Rightarrow> 'a" where
  "state_of (Returned a) = a"
| "state_of (Running a) = a"
| "state_of (Panicked a) = a"

section \<open>Collaborators and configuration\<close>

text \<open>\<open>coolq.CQBot\<close>, as far as the program reads it: \<open>b.Client.Uin\<close>.\<close>

record CQBot =
  Uin :: int64

text \<open>
  An inbound HTTP request. \<open>upgrade\<close> is what \<open>upgrader.Upgrade\<close> will meet on it:
  \<open>None\<close> when the upgrade fails, else the socket it produces.
\<close>

record Request =
  Path :: string
  RemoteAddr :: string
  Header :: header
  Query :: "(string \<times> string) list"
  upgrade :: "Conn option"

text \<open>
  The functions of the repository and of its libraries that the file calls and does not
  define: \<open>gjson.Parse\<close>; \<open>filter.Find\<close>, giving the predicate \<open>Eval\<close> of the filter
  registered under a name, if any; \<open>api.Caller.Call\<close>, where \<open>None\<close> stands for a call that
  panics; and \<open>checkAuth\<close>, which returns an HTTP status.
\<close>

record ext =
  Parse :: "bytes \<Rightarrow> json"
  Find :: "string \<Rightarrow> (json \<Rightarrow> bool) option"
  Call :: "Caller \<Rightarrow> string \<Rightarrow> Result \<Rightarrow> MSG option"
  checkAuth :: "Request \<Rightarrow> string \<Rightarrow> int"

definition StatusOK :: int where
  "StatusOK = 200"

text \<open>The fields of \<open>config.WebsocketServer\<close> and \<open>config.WebsocketReverse\<close> that are read.\<close>

record RateLimit =
  Enabled :: bool
  Frequency :: rat
  Bucket :: int

record WebsocketServer =
  ws_Disabled :: bool
  ws_Host :: string
  ws_Port :: int64
  ws_AccessToken :: string
  ws_Filter :: string
  ws_RateLimit :: RateLimit


text \<open>\<open>upgrader.Upgrade\<close>: on success the new socket enters the store.\<close>

definition Upgrade :: "Request \<Rightarrow> world \<Rightarrow> (error + addr) \<times> world" where
  "Upgrade r w =
     (case upgrade r of
        None \<Rightarrow> (Inl ErrUpgrade, w)
      | Some k \<Rightarrow> (case alloc k w of (a, w1) \<Rightarrow> (Inr a, w1)))"

section \<open>The forward server\<close>

record webSocketServer =
  s_bot :: CQBot
  conf :: WebsocketServer
  eventConn :: "wsConn list"
  s_token :: string
  handshake :: string
  s_filter :: string

text \<open>The format string of \<open>runWSServer\<close>, filled with the bot's \<open>Uin\<close> and a Unix time.\<close>

definition server_handshake :: "int64 \<Rightarrow> int64 \<Rightarrow> string" where
  \<open>server_handshake uin t =
     ''{"_post_method":2,"meta_event_type":"lifecycle","post_type":"meta_event","self_id":''
       @ FormatInt uin @ '',"sub_type":"connect","time":'' @ FormatInt t @ ''}''\<close>

text \<open>
  \<open>runWSServer\<close> up to the point where it starts to serve. A node that does not decode is
  \<open>None\<close>. The result is the server whose handlers the listener then calls, or \<open>None\<close> when
  the function returns without starting one. \<open>filter.Add\<close> loads the filter that
  \<open>Find\<close> answers with.
\<close>

definition runWSServer :: "CQBot \<Rightarrow> WebsocketServer option \<Rightarrow> world \<Rightarrow> webSocketServer option \<times> world" where
  "runWSServer b node w =
     (case node of
        None \<Rightarrow> (None, w)
      | Some cf \<Rightarrow>
          if ws_Disabled cf then (None, w)
          else
            (let s = \<lparr>s_bot = b, conf = cf, eventConn = [], s_token = ws_AccessToken cf,
                      handshake = [], s_filter = ws_Filter cf\<rparr>;
                 addr = ws_Host cf @ '':'' @ FormatInt (ws_Port cf);
                 s = s\<lparr>handshake := server_handshake (Uin b) (Unix w)\<rparr>;
                 w1 = emit (OnEventPush ServerPush) w
             in (Some s, emit (ListenAndServe addr) w1)))"

text \<open>
  The loop of \<open>webSocketServer.onBotPushEvent\<close>, with its two indices and the slice it
  overwrites in place.
\<close>

function onBotPushEvent_loop ::
  "bytes \<Rightarrow> nat \<Rightarrow> nat \<Rightarrow> wsConn list \<Rightarrow> world \<Rightarrow> nat \<times> wsConn list \<times> world" where
  "onBotPushEvent_loop e i j cs w =
     (if i < length cs then
        (let c = cs ! i in
         case WriteText c e w of
           (Some err, w1) \<Rightarrow> onBotPushEvent_loop e (i + 1) j cs (wsConn_Close c w1)
         | (None, w1) \<Rightarrow>
             onBotPushEvent_loop e (i + 1) (j + 1) (if i \<noteq> j then cs[j := c] else cs) w1)
      else (j, cs, w))"
  by pat_completeness auto
termination
  by (relation "measure (\<lambda>(e, i, j, cs, w). length cs - i)") auto

declare onBotPushEvent_loop.simps [simp del]

definition webSocketServer_onBotPushEvent ::
  "ext \<Rightarrow> webSocketServer \<Rightarrow> bytes \<Rightarrow> world \<Rightarrow> webSocketServer \<times> world" where
  "webSocketServer_onBotPushEvent x s e w =
     (if (case Find x (s_filter s) of None \<Rightarrow> False | Some flt \<Rightarrow> \<not> flt (Parse x e))
      then (s, w)
      else
        (case onBotPushEvent_loop e 0 0 (eventConn s) w of
           (j, cs, w1) \<Rightarrow> (s\<lparr>eventConn := take j cs\<rparr>, w1)))"



text \<open>The read loop of \<open>webSocketServer.listenAPI\<close>; the deferred \<open>Close\<close> runs when it ends.\<close>

function webSocketServer_listenAPI_loop :: "wsConn \<Rightarrow> world \<Rightarrow> world run" where
  "webSocketServer_listenAPI_loop c w =
     (case NextReader (conn c) w of
        (WouldBlock, w1) \<Rightarrow> Running w1
      | (ReadFailed, w1) \<Rightarrow> Returned w1
      | (Reader t None, w1) \<Rightarrow> Returned w1
      | (Reader t (Some buffer), w1) \<Rightarrow>
          if t = TextMessage
          then webSocketServer_listenAPI_loop c (emit (Go (HandleRequest c buffer)) w1)
          else webSocketServer_listenAPI_loop c w1)"
  by pat_completeness auto
termination
  by (relation "measure (\<lambda>(c, w). length (inbox (socks w (conn c))))")
    (auto simp: NextReader_def emit_def Let_def split: if_splits list.splits incoming.splits)

declare webSocketServer_listenAPI_loop.simps [simp del]

definition webSocketServer_listenAPI :: "webSocketServer \<Rightarrow> wsConn \<Rightarrow> world \<Rightarrow> world run" where
  "webSocketServer_listenAPI s c w =
     (case webSocketServer_listenAPI_loop c w of
        Returned w1 \<Rightarrow> Returned (wsConn_Close c w1)
      | Running w1 \<Rightarrow> Running w1
      | Panicked w1 \<Rightarrow> Panicked (wsConn_Close c w1))"

definition event :: "ext \<Rightarrow> webSocketServer \<Rightarrow> Request \<Rightarrow> world \<Rightarrow> webSocketServer \<times> world" where
  "event x s r w =
     (let status = checkAuth x r (s_token s) in
      if status \<noteq> StatusOK then (s, emit (WriteHeader status) w)
      else
        case Upgrade r w of
          (Inl err, w1) \<Rightarrow> (s, w1)
        | (Inr c, w1) \<Rightarrow>
            (case WriteMessage c TextMessage (Raw (handshake s)) w1 of
               (Some err, w2) \<Rightarrow> (s, Conn_Close c w2)
             | (None, w2) \<Rightarrow>
                 (s\<lparr>eventConn := eventConn s @ [\<lparr>conn = c, apiCaller = NewCaller\<rparr>]\<rparr>, w2)))"

definition api :: "ext \<Rightarrow> webSocketServer \<Rightarrow> Request \<Rightarrow> world \<Rightarrow> (webSocketServer \<times> world) run" where
  "api x s r w =
     (let status = checkAuth x r (s_token s) in
      if status \<noteq> StatusOK then Returned (s, emit (WriteHeader status) w)
      else
        case Upgrade r w of
          (Inl err, w1) \<Rightarrow> Returned (s, w1)
        | (Inr c, w1) \<Rightarrow>
            (let cn = \<lparr>conn = c, apiCaller = NewCaller\<rparr>;
                 cn = (if Enabled (ws_RateLimit (conf s))
                       then cn\<lparr>apiCaller := Use (apiCaller cn)
                              (rateLimit (Frequency (ws_RateLimit (conf s)))
                                 (Bucket (ws_RateLimit (conf s))))\<rparr>
                       else cn)
             in map_run (Pair s) (webSocketServer_listenAPI s cn w1)))"

definition any :: "ext \<Rightarrow> webSocketServer \<Rightarrow> Request \<Rightarrow> world \<Rightarrow> (webSocketServer \<times> world) run" where
  "any x s r w =
     (let status = checkAuth x r (s_token s) in
      if status \<noteq> StatusOK then Returned (s, emit (WriteHeader status) w)
      else
        case Upgrade r w of
          (Inl err, w1) \<Rightarrow> Returned (s, w1)
        | (Inr c, w1) \<Rightarrow>
            (case WriteMessage c TextMessage (Raw (handshake s)) w1 of
               (Some err, w2) \<Rightarrow> Returned (s, Conn_Close c w2)
             | (None, w2) \<Rightarrow>
                 (let cn = \<lparr>conn = c, apiCaller = NewCaller\<rparr>;
                      cn = (if Enabled (ws_RateLimit (conf s))
                            then cn\<lparr>apiCaller := Use (apiCaller cn)
                                   (rateLimit (Frequency (ws_RateLimit (conf s)))
                                      (Bucket (ws_RateLimit (conf s))))\<rparr>
                            else cn);
                      s1 = s\<lparr>eventConn := eventConn s @ [cn]\<rparr>
                  in map_run (Pair s1) (webSocketServer_listenAPI s1 cn w2))))"

text \<open>The routes of \<open>runWSServer\<close>: \<open>/event\<close>, \<open>/api\<close>, and \<open>/\<close> for every other path.\<close>

definition serve :: "ext \<Rightarrow> webSocketServer \<Rightarrow> Request \<Rightarrow> world \<Rightarrow> (webSocketServer \<times> world) run" where
  "serve x s r w =
     (if Path r = ''/event'' then Returned (event x s r w)
      else if Path r = ''/api'' then api x s r w
      else any x s r w)"

section \<open>The reverse client\<close>

record websocketClient =
  c_bot :: CQBot
  c_universal :: "wsConn option"
  c_event :: "wsConn option"
  c_token :: string
  c_filter :: string
  reconnectInterval :: Duration
  limiter :: "handler option"

text \<open>Reading and writing through a \<open>**wsConn\<close>.\<close>

fun load :: "slot \<Rightarrow> websocketClient \<Rightarrow> wsConn option" where
  "load universal_slot c = c_universal c"
| "load event_slot c = c_event c"

fun store :: "slot \<Rightarrow> wsConn \<Rightarrow> websocketClient \<Rightarrow> websocketClient" where
  "store universal_slot cn c = c\<lparr>c_universal := Some cn\<rparr>"
| "store event_slot cn c = c\<lparr>c_event := Some cn\<rparr>"


text \<open>The format string of \<open>websocketClient.connect\<close>.\<close>

definition client_handshake :: "int64 \<Rightarrow> int64 \<Rightarrow> string" where
  \<open>client_handshake uin t =
     ''{"meta_event_type":"lifecycle","post_type":"meta_event","self_id":''
       @ FormatInt uin @ '',"sub_type":"connect","time":'' @ FormatInt t @ ''}''\<close>

text \<open>\<open>websocket.DefaultDialer.Dial\<close>: the world decides whether this dial gets a socket.\<close>

definition Dialer_Dial :: "string \<Rightarrow> header \<Rightarrow> world \<Rightarrow> (error + addr) \<times> world" where
  "Dialer_Dial url h w =
     (let w1 = emit (Dial url h) (w\<lparr>ndials := Suc (ndials w)\<rparr>) in
      case net w (ndials w) url of
        None \<Rightarrow> (Inl ErrDial, w1)
      | Some k \<Rightarrow> (case alloc k w1 of (a, w2) \<Rightarrow> (Inr a, w2)))"

text \<open>
  \<open>websocketClient.connect\<close>. It calls itself after every failed dial while reconnection is
  on, so it need not return: the first argument bounds the dials the model follows, and
  \<open>Running\<close> is the state when the bound is reached.
\<close>

fun connect ::
  "nat \<Rightarrow> websocketClient \<Rightarrow> string \<Rightarrow> string \<Rightarrow> slot option \<Rightarrow> world \<Rightarrow> (websocketClient \<times> world) run" where
  "connect 0 c typ url conptr w = Running (c, w)"
| "connect (Suc n) c typ url conptr w =
     (let header = [''X-Client-Role'' \<mapsto> [typ],
                    ''X-Self-ID'' \<mapsto> [FormatInt (Uin (c_bot c))],
                    ''User-Agent'' \<mapsto> [''CQHttp/4.15.0'']];
          header = (if c_token c \<noteq> [] then header(''Authorization'' \<mapsto> [''Token '' @ c_token c])
                    else header)
      in case Dialer_Dial url header w of
           (Inl err, w1) \<Rightarrow>
             if reconnectInterval c \<noteq> 0
             then connect n c typ url conptr (time_Sleep (reconnectInterval c) w1)
             else Returned (c, w1)
         | (Inr cn, w1) \<Rightarrow>
             (let w2 = (if typ = ''Event'' \<or> typ = ''Universal''
                        then snd (WriteMessage cn TextMessage
                                    (Raw (client_handshake (Uin (c_bot c)) (Unix w1))) w1)
                        else w1);
                  wrappedConn = \<lparr>conn = cn, apiCaller = NewCaller\<rparr>;
                  wrappedConn = (case limiter c of
                                   None \<Rightarrow> wrappedConn
                                 | Some l \<Rightarrow> wrappedConn\<lparr>apiCaller := Use (apiCaller wrappedConn) l\<rparr>);
                  c1 = (case conptr of None \<Rightarrow> c | Some p \<Rightarrow> store p wrappedConn c);
                  w3 = (if typ \<noteq> ''Event'' then emit (Go (ListenAPI typ url wrappedConn)) w2
                        else w2)
              in Returned (c1, w3)))"

declare connect.simps [simp del]

text \<open>The read loop of \<open>websocketClient.listenAPI\<close>, and what follows it.\<close>

function websocketClient_listenAPI_loop :: "wsConn \<Rightarrow> world \<Rightarrow> world run" where
  "websocketClient_listenAPI_loop cn w =
     (case NextReader (conn cn) w of
        (WouldBlock, w1) \<Rightarrow> Running w1
      | (ReadFailed, w1) \<Rightarrow> Returned w1
      | (Reader t None, w1) \<Rightarrow> Returned w1
      | (Reader t (Some buffer), w1) \<Rightarrow>
          if t = TextMessage
          then websocketClient_listenAPI_loop cn (emit (Go (HandleRequest cn buffer)) w1)
          else websocketClient_listenAPI_loop cn w1)"
  by pat_completeness auto
termination
  by (relation "measure (\<lambda>(cn, w). length (inbox (socks w (conn cn))))")
    (auto simp: NextReader_def emit_def Let_def split: if_splits list.splits incoming.splits)

declare websocketClient_listenAPI_loop.simps [simp del]

definition websocketClient_listenAPI ::
  "websocketClient \<Rightarrow> string \<Rightarrow> string \<Rightarrow> wsConn \<Rightarrow> world \<Rightarrow> world run" where
  "websocketClient_listenAPI c typ url cn w =
     (case websocketClient_listenAPI_loop cn w of
        Running w1 \<Rightarrow> Running w1
      | Panicked w1 \<Rightarrow> Panicked (wsConn_Close cn w1)
      | Returned w1 \<Rightarrow>
          (let w2 = (if reconnectInterval c \<noteq> 0
                     then (let w2 = time_Sleep (reconnectInterval c) w1 in
                           if typ = ''API'' then emit (Go (Connect typ url None)) w2 else w2)
                     else w1)
           in Returned (wsConn_Close cn w2)))"

text \<open>
  The closure \<open>websocketClient.onBotPushEvent\<close> returns, applied to an event. A slot that
  is still \<open>nil\<close> makes \<open>(*conn).WriteText\<close> panic.
\<close>

definition websocketClient_onBotPushEvent ::
  "ext \<Rightarrow> nat \<Rightarrow> websocketClient \<Rightarrow> string \<Rightarrow> string \<Rightarrow> slot \<Rightarrow> bytes \<Rightarrow> world
     \<Rightarrow> (websocketClient \<times> world) run" where
  "websocketClient_onBotPushEvent x fuel c typ url p e w =
     (if (case Find x (c_filter c) of None \<Rightarrow> False | Some flt \<Rightarrow> \<not> flt (Parse x e))
      then Returned (c, w)
      else
        case load p c of
          None \<Rightarrow> Panicked (c, w)
        | Some cn \<Rightarrow>
            (case WriteText cn e w of
               (None, w1) \<Rightarrow> Returned (c, w1)
             | (Some err, w1) \<Rightarrow>
                 (let w2 = wsConn_Close cn w1 in
                  if reconnectInterval c \<noteq> 0
                  then connect fuel c typ url (Some p) (time_Sleep (reconnectInterval c) w2)
                  else Returned (c, w2))))"



section \<open>Notions the statements use\<close>

text \<open>The filter registered under a name turns the event down.\<close>

definition rejected :: "ext \<Rightarrow> string \<Rightarrow> bytes \<Rightarrow> bool" where
  "rejected x name e = (case Find x name of None \<Rightarrow> False | Some flt \<Rightarrow> \<not> flt (Parse x e))"

text \<open>A write on the socket would succeed in this world.\<close>

definition writable :: "world \<Rightarrow> addr \<Rightarrow> bool" where
  "writable w a = (\<not> broken (socks w a) \<and> \<not> closed (socks w a) \<and> \<not> writeErr (socks w a))"

text \<open>What one broadcast does to a subscriber's socket: the frame arrives, or the write
  fails and the socket is closed.\<close>

definition pushed :: "bytes \<Rightarrow> Conn \<Rightarrow> Conn" where
  "pushed e k =
     (if broken k \<or> closed k \<or> writeErr k
      then k\<lparr>wcalls := Suc (wcalls k), writeErr := True, closed := True\<rparr>
      else k\<lparr>wcalls := Suc (wcalls k), outbox := outbox k @ [(TextMessage, Raw e)]\<rparr>)"


text \<open>
  A request is admitted: authentication succeeds, the upgrade succeeds, and the socket it
  yields takes the handshake write.
\<close>

definition admitted :: "ext \<Rightarrow> webSocketServer \<Rightarrow> Request \<Rightarrow> bool" where
  "admitted x s r =
     (checkAuth x r (s_token s) = StatusOK \<and>
      (case upgrade r of None \<Rightarrow> False
       | Some k \<Rightarrow> \<not> broken k \<and> \<not> closed k \<and> \<not> writeErr k))"

text \<open>The subscribers wrap pairwise different, allocated sockets.\<close>

definition wf_server :: "webSocketServer \<Rightarrow> world \<Rightarrow> bool" where
  "wf_server s w =
     (distinct (map conn (eventConn s)) \<and> (\<forall>c \<in> set (eventConn s). conn c < nsocks w))"

text \<open>The headers of a dial: role, bot identity, user agent, and the token if one is set.\<close>

definition dial_header :: "websocketClient \<Rightarrow> string \<Rightarrow> header" where
  "dial_header c typ =
     (if c_token c \<noteq> []
      then [''X-Client-Role'' \<mapsto> [typ], ''X-Self-ID'' \<mapsto> [FormatInt (Uin (c_bot c))],
            ''User-Agent'' \<mapsto> [''CQHttp/4.15.0''], ''Authorization'' \<mapsto> [''Token '' @ c_token c]]
      else [''X-Client-Role'' \<mapsto> [typ], ''X-Self-ID'' \<mapsto> [FormatInt (Uin (c_bot c))],
            ''User-Agent'' \<mapsto> [''CQHttp/4.15.0'']])"

text \<open>The connection a client wraps around a dialled socket.\<close>

definition wrapped :: "websocketClient \<Rightarrow> addr \<Rightarrow> wsConn" where
  "wrapped c a = \<lparr>conn = a, apiCaller = (case limiter c of None \<Rightarrow> [] | Some l \<Rightarrow> [l])\<rparr>"




text \<open>The world once the next entry of a socket's inbox has been taken.\<close>

definition consumed :: "addr \<Rightarrow> world \<Rightarrow> world" where
  "consumed a w = w\<lparr>socks := (socks w)(a := (socks w a)\<lparr>inbox := tl (inbox (socks w a))\<rparr>)\<rparr>"

text \<open>The command payloads in what a peer sends: the bodies of the text messages that
  come before the first read failure.\<close>

fun requests :: "incoming list \<Rightarrow> bytes list" where
  "requests [] = []"
| "requests (ReaderError # rest) = []"
| "requests (Message t None # rest) = []"
| "requests (Message t (Some b) # rest) =
     (if t = TextMessage then b # requests rest else requests rest)"


section \<open>Concrete instances\<close>

definition fresh_sock :: Conn where
  "fresh_sock = \<lparr>broken = False, closed = False, writeErr = False, outbox = [], inbox = [], wcalls = 0\<rparr>"

definition x0 :: ext where
  "x0 = \<lparr>Parse = (\<lambda>b. JNull), Find = (\<lambda>n. None), Call = (\<lambda>c t p. Some Map.empty),
          checkAuth = (\<lambda>r t. 200)\<rparr>"

definition w0 :: world where
  "w0 = \<lparr>socks = (\<lambda>a. if a = 1 then fresh_sock\<lparr>broken := True\<rparr> else fresh_sock), nsocks = 3,
          net = (\<lambda>n u. None), ndials = 0, clock = 0, trace = []\<rparr>"

definition s0 :: webSocketServer where
  "s0 = \<lparr>s_bot = \<lparr>Uin = 10001\<rparr>,
          conf = \<lparr>ws_Disabled = False, ws_Host = ''127.0.0.1'', ws_Port = 6700, ws_AccessToken = [],
                  ws_Filter = [], ws_RateLimit = \<lparr>Enabled = False, Frequency = 1, Bucket = 1\<rparr>\<rparr>,
          eventConn = [\<lparr>conn = 0, apiCaller = []\<rparr>, \<lparr>conn = 1, apiCaller = []\<rparr>,
                       \<lparr>conn = 2, apiCaller = []\<rparr>],
          s_token = [], handshake = [], s_filter = []\<rparr>"

definition cmd_async_echo :: bytes where
  \<open>cmd_async_echo = ''{"action":"send_msg_async","params":{"message":"hi"},"echo":"x1"}''\<close>

definition cmd_sync_echo :: bytes where
  \<open>cmd_sync_echo = ''{"action":"send_msg","params":{"message":"hi"},"echo":"x1"}''\<close>

definition cmd_num_echo :: bytes where
  \<open>cmd_num_echo = ''{"action":"send_msg_async","params":{"message":"hi"},"echo":7}''\<close>

definition cmd_obj_echo :: bytes where
  \<open>cmd_obj_echo = ''{"action":"send_msg_async","params":{"message":"hi"},"echo":{"seq":7}}''\<close>

definition cmd_no_echo :: bytes where
  \<open>cmd_no_echo = ''{"action":"send_msg_async","params":{"message":"hi"}}''\<close>

definition cmd :: "string \<Rightarrow> json option \<Rightarrow> json" where
  "cmd a e =
     JObject ([(''action'', JString a), (''params'', JObject [(''message'', JString ''hi'')])]
              @ (case e of None \<Rightarrow> [] | Some v \<Rightarrow> [(''echo'', v)]))"

definition x1 :: ext where
  "x1 = \<lparr>Parse = (\<lambda>b. if b = cmd_async_echo then cmd ''send_msg_async'' (Some (JString ''x1''))
                      else if b = cmd_sync_echo then cmd ''send_msg'' (Some (JString ''x1''))
                      else if b = cmd_num_echo then cmd ''send_msg_async'' (Some (JNumber 7))
                      else if b = cmd_obj_echo
                        then cmd ''send_msg_async'' (Some (JObject [(''seq'', JNumber 7)]))
                      else if b = cmd_no_echo then cmd ''send_msg_async'' None
                      else JNull),
          Find = (\<lambda>n. if n = ''quiet'' then Some (\<lambda>j. False) else None),
          Call = (\<lambda>c t p. Some [''status'' \<mapsto> JString ''ok'', ''data'' \<mapsto> JString t]),
          checkAuth = (\<lambda>r t. if t = [] \<or> Header r ''Authorization'' = Some [''Bearer '' @ t]
                              then 200 else 401)\<rparr>"

definition c0 :: websocketClient where
  "c0 = \<lparr>c_bot = \<lparr>Uin = 10001\<rparr>, c_universal = Some \<lparr>conn = 0, apiCaller = []\<rparr>, c_event = None,
          c_token = [], c_filter = ''quiet'', reconnectInterval = 3000000000, limiter = None\<rparr>"

definition r_plain :: Request where
  "r_plain = \<lparr>Path = ''/event'', RemoteAddr = ''10.0.0.7:50000'', Header = Map.empty, Query = [],
               upgrade = Some fresh_sock\<rparr>"



definition b0 :: CQBot where
  "b0 = \<lparr>Uin = 10001\<rparr>"

definition w_in :: "incoming list \<Rightarrow> world" where
  "w_in xs = \<lparr>socks = (\<lambda>a. fresh_sock\<lparr>inbox := xs\<rparr>), nsocks = 1, net = (\<lambda>n u. None),
               ndials = 0, clock = 0, trace = []\<rparr>"

definition w_start :: world where
  "w_start = w0\<lparr>clock := 1000000000000\<rparr>"

section \<open>Broadcast on the forward server\<close>

lemma WriteText_ok:
  "writable w (conn c) \<Longrightarrow>
   WriteText c e w = (None, w\<lparr>socks := (socks w)(conn c := pushed e (socks w (conn c)))\<rparr>)"
  by (simp add: WriteText_def WriteMessage_def flush_def begin_message_def writable_def pushed_def Let_def)

lemma WriteText_fail:
  "\<not> writable w (conn c) \<Longrightarrow>
   (case WriteText c e w of (r, w1) \<Rightarrow> r \<noteq> None \<and>
      wsConn_Close c w1 = w\<lparr>socks := (socks w)(conn c := pushed e (socks w (conn c)))\<rparr>)"
  by (auto simp add: WriteText_def WriteMessage_def flush_def begin_message_def writable_def pushed_def Let_def
     wsConn_Close_def Conn_Close_def)

lemma WriteText_succeeds_iff: "fst (WriteText c e w) = None \<longleftrightarrow> writable w (conn c)"
  by (auto simp add: WriteText_def WriteMessage_def flush_def begin_message_def writable_def Let_def)

text \<open>The invariant of the compaction loop, from index \<open>i\<close> on.\<close>

lemma onBotPushEvent_loop_spec:
  "j \<le> i \<Longrightarrow> i \<le> length cs \<Longrightarrow> distinct (map conn (drop i cs)) \<Longrightarrow>
   onBotPushEvent_loop e i j cs w = (j', cs', w') \<Longrightarrow>
   take j' cs' = take j cs @ filter (\<lambda>c. writable w (conn c)) (drop i cs) \<and>
   w' = w\<lparr>socks := (\<lambda>a. if a \<in> conn ` set (drop i cs) then pushed e (socks w a) else socks w a)\<rparr>"
proof (induction e i j cs w arbitrary: j' cs' w' rule: onBotPushEvent_loop.induct)
  case (1 e i j cs w)
  show ?case
  proof (cases "i < length cs")
    case False
    then have "onBotPushEvent_loop e i j cs w = (j, cs, w)"
      by (subst onBotPushEvent_loop.simps) simp
    with False 1(4,6) show ?thesis
      by simp
  next
    case True
    let ?c = "cs ! i"
    have drop_eq: "drop i cs = ?c # drop (Suc i) cs"
      using True by (simp add: Cons_nth_drop_Suc)
    have dist: "distinct (map conn (drop (Suc i) cs))" and notin: "conn ?c \<notin> conn ` set (drop (Suc i) cs)"
      using 1(5) drop_eq by auto
    have ne: "conn c \<noteq> conn ?c" if "c \<in> set (drop (Suc i) cs)" for c :: wsConn
      using notin that by (metis imageI)
    have img: "conn ` set (drop i cs) = insert (conn ?c) (conn ` set (drop (Suc i) cs))"
      by (subst drop_eq) simp
    have F: "(\<lambda>a. if a \<in> conn ` set (drop (Suc i) cs)
                then pushed e (socks (w\<lparr>socks := (socks w)(conn ?c := pushed e (socks w (conn ?c)))\<rparr>) a)
                else socks (w\<lparr>socks := (socks w)(conn ?c := pushed e (socks w (conn ?c)))\<rparr>) a) =
             (\<lambda>a. if a \<in> conn ` set (drop i cs) then pushed e (socks w a) else socks w a)"
      unfolding img using notin by (auto simp: fun_eq_iff)
    show ?thesis
    proof (cases "writable w (conn ?c)")
      case w: True
      let ?w1 = "w\<lparr>socks := (socks w)(conn ?c := pushed e (socks w (conn ?c)))\<rparr>"
      let ?cs1 = "if i \<noteq> j then cs[j := ?c] else cs"
      have step: "onBotPushEvent_loop e i j cs w = onBotPushEvent_loop e (i + 1) (j + 1) ?cs1 ?w1"
        using True WriteText_ok[OF w, of e]
        by (subst onBotPushEvent_loop.simps) (simp add: Let_def)
      have d1: "drop (Suc i) ?cs1 = drop (Suc i) cs" using 1(3) by simp
      have t1: "take (Suc j) ?cs1 = take j cs @ [?c]"
        using 1(3) True by (auto simp: take_Suc_conv_app_nth)
      have IH: "take j' cs' = take (j + 1) ?cs1 @ filter (\<lambda>c. writable ?w1 (conn c)) (drop (i + 1) ?cs1) \<and>
        w' = ?w1\<lparr>socks := (\<lambda>a. if a \<in> conn ` set (drop (i + 1) ?cs1) then pushed e (socks ?w1 a) else socks ?w1 a)\<rparr>"
        apply (rule 1(1)[OF True refl _ refl])
        using WriteText_ok[OF w, of e] 1(3) True dist d1 1(6) step by auto
      have f1: "filter (\<lambda>c. writable ?w1 (conn c)) (drop (Suc i) cs) = filter (\<lambda>c. writable w (conn c)) (drop (Suc i) cs)"
        by (rule filter_cong[OF refl]) (simp add: writable_def ne)
      have flt: "filter (\<lambda>c. writable w (conn c)) (drop i cs) =
          ?c # filter (\<lambda>c. writable w (conn c)) (drop (Suc i) cs)"
        using w by (subst drop_eq) simp
      from IH show ?thesis
        by (simp add: d1 t1 f1 flt F)
    next
      case w: False
      let ?w1 = "w\<lparr>socks := (socks w)(conn ?c := pushed e (socks w (conn ?c)))\<rparr>"
      obtain r wx where wt: "WriteText ?c e w = (Some r, wx)" and cl: "wsConn_Close ?c wx = ?w1"
        using WriteText_fail[OF w, of e] by (cases "WriteText ?c e w") auto
      have step: "onBotPushEvent_loop e i j cs w = onBotPushEvent_loop e (i + 1) j cs ?w1"
        using True wt cl
        by (subst onBotPushEvent_loop.simps) (simp add: Let_def)
      have IH: "take j' cs' = take j cs @ filter (\<lambda>c. writable ?w1 (conn c)) (drop (i + 1) cs) \<and>
        w' = ?w1\<lparr>socks := (\<lambda>a. if a \<in> conn ` set (drop (i + 1) cs) then pushed e (socks ?w1 a) else socks ?w1 a)\<rparr>"
        using 1(2)[OF True refl wt[symmetric] refl, unfolded cl, of j' cs' w'] 1(3) True dist 1(6) step
        by auto
      have f1: "filter (\<lambda>c. writable ?w1 (conn c)) (drop (Suc i) cs) = filter (\<lambda>c. writable w (conn c)) (drop (Suc i) cs)"
        by (rule filter_cong[OF refl]) (simp add: writable_def ne)
      have flt: "filter (\<lambda>c. writable w (conn c)) (drop i cs) =
          filter (\<lambda>c. writable w (conn c)) (drop (Suc i) cs)"
        using w by (subst drop_eq) simp
      from IH show ?thesis
        by (simp add: f1 flt F)
    qed
  qed
qed

text \<open>
  Claim C1. One publish of an event that the filter lets through, on a server whose
  subscribers wrap pairwise different sockets: every subscriber whose write succeeds gets
  the serialized event exactly once (one frame more in its outbox, one write attempt) and
  stays registered; every subscriber whose write fails is closed, gets nothing, and is
  gone from the subscriber set; the survivors keep their relative order; a failure at an
  earlier position does not keep the event from a later subscriber; no other socket is
  touched.
\<close>

theorem publish_delivers_once_and_prunes:
  "distinct (map conn (eventConn s)) \<Longrightarrow> \<not> rejected x (s_filter s) e \<Longrightarrow>
   webSocketServer_onBotPushEvent x s e w = (s', w') \<Longrightarrow>
   s' = s\<lparr>eventConn := filter (\<lambda>c. writable w (conn c)) (eventConn s)\<rparr> \<and>
   (\<forall>c \<in> set (eventConn s). writable w (conn c) \<longrightarrow>
      outbox (socks w' (conn c)) = outbox (socks w (conn c)) @ [(TextMessage, Raw e)] \<and>
      wcalls (socks w' (conn c)) = Suc (wcalls (socks w (conn c))) \<and>
      \<not> closed (socks w' (conn c)) \<and> c \<in> set (eventConn s')) \<and>
   (\<forall>c \<in> set (eventConn s). \<not> writable w (conn c) \<longrightarrow>
      closed (socks w' (conn c)) \<and> outbox (socks w' (conn c)) = outbox (socks w (conn c)) \<and>
      wcalls (socks w' (conn c)) = Suc (wcalls (socks w (conn c))) \<and>
      c \<notin> set (eventConn s')) \<and>
   (\<forall>i j. i < j \<and> j < length (eventConn s) \<and> \<not> writable w (conn (eventConn s ! i)) \<and>
      writable w (conn (eventConn s ! j)) \<longrightarrow>
      outbox (socks w' (conn (eventConn s ! j))) =
        outbox (socks w (conn (eventConn s ! j))) @ [(TextMessage, Raw e)]) \<and>
   (\<forall>a. a \<notin> conn ` set (eventConn s) \<longrightarrow> socks w' a = socks w a)"
proof -
  assume d: "distinct (map conn (eventConn s))" and nr: "\<not> rejected x (s_filter s) e"
    and run: "webSocketServer_onBotPushEvent x s e w = (s', w')"
  obtain j cs w1 where loop: "onBotPushEvent_loop e 0 0 (eventConn s) w = (j, cs, w1)"
    by (cases "onBotPushEvent_loop e 0 0 (eventConn s) w") auto
  from onBotPushEvent_loop_spec[OF _ _ _ loop] d
  have tk: "take j cs = filter (\<lambda>c. writable w (conn c)) (eventConn s)"
    and w1: "w1 = w\<lparr>socks := (\<lambda>a. if a \<in> conn ` set (eventConn s) then pushed e (socks w a) else socks w a)\<rparr>"
    by auto
  from run nr loop have s': "s' = s\<lparr>eventConn := take j cs\<rparr>" and w': "w' = w1"
    by (auto simp: webSocketServer_onBotPushEvent_def rejected_def)
  have sk: "socks w' a = (if a \<in> conn ` set (eventConn s) then pushed e (socks w a) else socks w a)" for a
    by (simp add: w' w1)
  have ev: "eventConn s' = filter (\<lambda>c. writable w (conn c)) (eventConn s)"
    by (simp add: s' tk)
  have ok: "outbox (socks w' (conn c)) = outbox (socks w (conn c)) @ [(TextMessage, Raw e)] \<and>
      wcalls (socks w' (conn c)) = Suc (wcalls (socks w (conn c))) \<and>
      \<not> closed (socks w' (conn c)) \<and> c \<in> set (eventConn s')"
    if "c \<in> set (eventConn s)" "writable w (conn c)" for c
    using that by (simp add: sk ev pushed_def writable_def)
  have bad: "closed (socks w' (conn c)) \<and> outbox (socks w' (conn c)) = outbox (socks w (conn c)) \<and>
      wcalls (socks w' (conn c)) = Suc (wcalls (socks w (conn c))) \<and> c \<notin> set (eventConn s')"
    if "c \<in> set (eventConn s)" "\<not> writable w (conn c)" for c
    using that by (auto simp add: sk ev pushed_def writable_def)
  show ?thesis
    using ok bad by (auto simp: s' tk sk)
qed

theorem publish_delivers_once_and_prunes_witness:
  "distinct (map conn (eventConn s0)) \<and> \<not> rejected x0 (s_filter s0) ''{}'' \<and>
   map conn (eventConn (fst (webSocketServer_onBotPushEvent x0 s0 ''{}'' w0))) = [0, 2] \<and>
   outbox (socks (snd (webSocketServer_onBotPushEvent x0 s0 ''{}'' w0)) 0) = [(TextMessage, Raw ''{}'')] \<and>
   outbox (socks (snd (webSocketServer_onBotPushEvent x0 s0 ''{}'' w0)) 2) = [(TextMessage, Raw ''{}'')] \<and>
   closed (socks (snd (webSocketServer_onBotPushEvent x0 s0 ''{}'' w0)) 1) \<and>
   outbox (socks (snd (webSocketServer_onBotPushEvent x0 s0 ''{}'' w0)) 1) = []"
  using publish_delivers_once_and_prunes[of s0 x0 "''{}''" w0
      "fst (webSocketServer_onBotPushEvent x0 s0 ''{}'' w0)"
      "snd (webSocketServer_onBotPushEvent x0 s0 ''{}'' w0)"]
  by (simp add: s0_def x0_def w0_def rejected_def writable_def fresh_sock_def)

section \<open>Filtered events\<close>

text \<open>
  Claim C9. An event that the configured filter turns down leaves everything as it was, on
  the server and on the client: the subscriber set, the role slots, every socket (so no
  write was attempted, the attempt counters included, and nothing was closed) and the
  trace (so nothing was dialled).
\<close>

theorem filtered_event_changes_nothing:
  "(rejected x (s_filter s) e \<longrightarrow> webSocketServer_onBotPushEvent x s e w = (s, w)) \<and>
   (rejected x (c_filter c) e \<longrightarrow>
      websocketClient_onBotPushEvent x fuel c typ url p e w = Returned (c, w))"
  by (simp add: rejected_def webSocketServer_onBotPushEvent_def websocketClient_onBotPushEvent_def)

theorem filtered_event_changes_nothing_witness:
  "rejected x1 (s_filter (s0\<lparr>s_filter := ''quiet''\<rparr>)) ''{}'' \<and>
   webSocketServer_onBotPushEvent x1 (s0\<lparr>s_filter := ''quiet''\<rparr>) ''{}'' w0
     = (s0\<lparr>s_filter := ''quiet''\<rparr>, w0) \<and>
   rejected x1 (c_filter c0) ''{}'' \<and>
   websocketClient_onBotPushEvent x1 5 c0 ''Universal'' ''ws://peer/ws'' universal_slot ''{}'' w0
     = Returned (c0, w0)"
  using filtered_event_changes_nothing[of x1 "s0\<lparr>s_filter := ''quiet''\<rparr>" "''{}''" w0 c0 5
      "''Universal''" "''ws://peer/ws''" universal_slot]
  by (simp add: rejected_def x1_def c0_def)

section \<open>Command dispatch\<close>





section \<open>Accepting connections on the forward server\<close>

lemma listenAPI_loop_frame:
  "webSocketServer_listenAPI_loop c w = r \<Longrightarrow>
   nsocks (state_of r) = nsocks w \<and>
   (\<forall>a. outbox (socks (state_of r) a) = outbox (socks w a) \<and>
        closed (socks (state_of r) a) = closed (socks w a) \<and>
        wcalls (socks (state_of r) a) = wcalls (socks w a))"
proof (induction c w arbitrary: r rule: webSocketServer_listenAPI_loop.induct)
  case (1 c w)
  show ?case
    using "1.prems" "1.IH"
    apply (subst (asm) webSocketServer_listenAPI_loop.simps)
    apply (auto simp: NextReader_def Let_def emit_def split: if_splits list.splits incoming.splits option.splits)
    done
qed

lemma event_cases:
  "event x s r w =
     (if checkAuth x r (s_token s) \<noteq> StatusOK
      then (s, emit (WriteHeader (checkAuth x r (s_token s))) w)
      else case upgrade r of
             None \<Rightarrow> (s, w)
           | Some k \<Rightarrow>
               if broken k \<or> closed k \<or> writeErr k
               then (s, w\<lparr>socks := (socks w)(nsocks w := k\<lparr>wcalls := Suc (wcalls k), writeErr := True, closed := True\<rparr>),
                        nsocks := Suc (nsocks w)\<rparr>)
               else (s\<lparr>eventConn := eventConn s @ [\<lparr>conn = nsocks w, apiCaller = NewCaller\<rparr>]\<rparr>,
                     w\<lparr>socks := (socks w)(nsocks w := k\<lparr>wcalls := Suc (wcalls k),
                            outbox := outbox k @ [(TextMessage, Raw (handshake s))]\<rparr>),
                       nsocks := Suc (nsocks w)\<rparr>))"
  by (auto simp: event_def Let_def Upgrade_def alloc_def WriteMessage_def flush_def begin_message_def
      Conn_Close_def split: option.splits)

lemma any_cases:
  "any x s r w =
     (if checkAuth x r (s_token s) \<noteq> StatusOK
      then Returned (s, emit (WriteHeader (checkAuth x r (s_token s))) w)
      else case upgrade r of
             None \<Rightarrow> Returned (s, w)
           | Some k \<Rightarrow>
               if broken k \<or> closed k \<or> writeErr k
               then Returned (s, w\<lparr>socks := (socks w)(nsocks w := k\<lparr>wcalls := Suc (wcalls k), writeErr := True, closed := True\<rparr>),
                        nsocks := Suc (nsocks w)\<rparr>)
               else
                 (let cn = \<lparr>conn = nsocks w,
                            apiCaller = (if Enabled (ws_RateLimit (conf s))
                                         then [rateLimit (Frequency (ws_RateLimit (conf s)))
                                                 (Bucket (ws_RateLimit (conf s)))]
                                         else [])\<rparr>;
                      s1 = s\<lparr>eventConn := eventConn s @ [cn]\<rparr>
                  in map_run (Pair s1) (webSocketServer_listenAPI s1 cn
                       (w\<lparr>nsocks := Suc (nsocks w),
                          socks := (socks w)(nsocks w := k\<lparr>wcalls := Suc (wcalls k),
                            outbox := outbox k @ [(TextMessage, Raw (handshake s))]\<rparr>)\<rparr>))))"
  by (auto simp: any_def Let_def Upgrade_def alloc_def WriteMessage_def flush_def begin_message_def
      Conn_Close_def NewCaller_def Use_def split: option.splits)

lemma state_of_map_run_Pair: "state_of (map_run (Pair s) q) = (s, state_of q)"
  by (cases q) simp_all

lemma listenAPI_frame:
  "webSocketServer_listenAPI s c w = r \<Longrightarrow>
   nsocks (state_of r) = nsocks w \<and>
   (\<forall>a. outbox (socks (state_of r) a) = outbox (socks w a) \<and>
        wcalls (socks (state_of r) a) = wcalls (socks w a))"
  using listenAPI_loop_frame[OF refl, of c w]
  by (auto simp: webSocketServer_listenAPI_def wsConn_Close_def Conn_Close_def split: run.splits)

text \<open>
  Claim C4. On \<open>/event\<close> and on \<open>/\<close>, the subscriber set grows, by one connection that
  wraps the new socket, exactly when the request is admitted; otherwise it is unchanged.
  When authentication fails the only effect is the HTTP status written: no upgrade, no
  socket, no connection. When the handshake write fails the new socket is closed and has
  received nothing. An admitted connection has the handshake as its first frame.
\<close>

theorem registered_iff_admitted:
  "(case event x s r w of (s', w') \<Rightarrow>
      (admitted x s r \<longrightarrow>
         s' = s\<lparr>eventConn := eventConn s @ [\<lparr>conn = nsocks w, apiCaller = NewCaller\<rparr>]\<rparr> \<and>
         outbox (socks w' (nsocks w)) = outbox (the (upgrade r)) @ [(TextMessage, Raw (handshake s))] \<and>
         \<not> closed (socks w' (nsocks w))) \<and>
      (\<not> admitted x s r \<longrightarrow> s' = s) \<and>
      (checkAuth x r (s_token s) \<noteq> StatusOK \<longrightarrow>
         w' = emit (WriteHeader (checkAuth x r (s_token s))) w) \<and>
      (checkAuth x r (s_token s) = StatusOK \<and> upgrade r = None \<longrightarrow> w' = w) \<and>
      (\<forall>k. checkAuth x r (s_token s) = StatusOK \<and> upgrade r = Some k \<and>
           (broken k \<or> closed k \<or> writeErr k) \<longrightarrow>
         closed (socks w' (nsocks w)) \<and> outbox (socks w' (nsocks w)) = outbox k)) \<and>
   (case state_of (any x s r w) of (s', w') \<Rightarrow>
      (admitted x s r \<longrightarrow>
         (\<exists>cl. s' = s\<lparr>eventConn := eventConn s @ [\<lparr>conn = nsocks w, apiCaller = cl\<rparr>]\<rparr>) \<and>
         outbox (socks w' (nsocks w)) = outbox (the (upgrade r)) @ [(TextMessage, Raw (handshake s))]) \<and>
      (\<not> admitted x s r \<longrightarrow> s' = s) \<and>
      (checkAuth x r (s_token s) \<noteq> StatusOK \<longrightarrow>
         w' = emit (WriteHeader (checkAuth x r (s_token s))) w) \<and>
      (checkAuth x r (s_token s) = StatusOK \<and> upgrade r = None \<longrightarrow> w' = w) \<and>
      (\<forall>k. checkAuth x r (s_token s) = StatusOK \<and> upgrade r = Some k \<and>
           (broken k \<or> closed k \<or> writeErr k) \<longrightarrow>
         closed (socks w' (nsocks w)) \<and> outbox (socks w' (nsocks w)) = outbox k))"
proof (rule conjI)
  show "case event x s r w of (s', w') \<Rightarrow>
      (admitted x s r \<longrightarrow>
         s' = s\<lparr>eventConn := eventConn s @ [\<lparr>conn = nsocks w, apiCaller = NewCaller\<rparr>]\<rparr> \<and>
         outbox (socks w' (nsocks w)) = outbox (the (upgrade r)) @ [(TextMessage, Raw (handshake s))] \<and>
         \<not> closed (socks w' (nsocks w))) \<and>
      (\<not> admitted x s r \<longrightarrow> s' = s) \<and>
      (checkAuth x r (s_token s) \<noteq> StatusOK \<longrightarrow>
         w' = emit (WriteHeader (checkAuth x r (s_token s))) w) \<and>
      (checkAuth x r (s_token s) = StatusOK \<and> upgrade r = None \<longrightarrow> w' = w) \<and>
      (\<forall>k. checkAuth x r (s_token s) = StatusOK \<and> upgrade r = Some k \<and>
           (broken k \<or> closed k \<or> writeErr k) \<longrightarrow>
         closed (socks w' (nsocks w)) \<and> outbox (socks w' (nsocks w)) = outbox k)"
    by (auto simp: event_cases admitted_def split: option.splits)
next
  show "case state_of (any x s r w) of (s', w') \<Rightarrow>
      (admitted x s r \<longrightarrow>
         (\<exists>cl. s' = s\<lparr>eventConn := eventConn s @ [\<lparr>conn = nsocks w, apiCaller = cl\<rparr>]\<rparr>) \<and>
         outbox (socks w' (nsocks w)) = outbox (the (upgrade r)) @ [(TextMessage, Raw (handshake s))]) \<and>
      (\<not> admitted x s r \<longrightarrow> s' = s) \<and>
      (checkAuth x r (s_token s) \<noteq> StatusOK \<longrightarrow>
         w' = emit (WriteHeader (checkAuth x r (s_token s))) w) \<and>
      (checkAuth x r (s_token s) = StatusOK \<and> upgrade r = None \<longrightarrow> w' = w) \<and>
      (\<forall>k. checkAuth x r (s_token s) = StatusOK \<and> upgrade r = Some k \<and>
           (broken k \<or> closed k \<or> writeErr k) \<longrightarrow>
         closed (socks w' (nsocks w)) \<and> outbox (socks w' (nsocks w)) = outbox k)"
  proof (cases "admitted x s r")
    case False
    then show ?thesis
      by (auto simp: any_cases admitted_def split: option.splits)
  next
    case True
    then obtain k where k: "upgrade r = Some k" "\<not> broken k" "\<not> closed k" "\<not> writeErr k"
      and auth: "checkAuth x r (s_token s) = StatusOK"
      by (auto simp: admitted_def split: option.splits)
    define cn where "cn = \<lparr>conn = nsocks w,
        apiCaller = (if Enabled (ws_RateLimit (conf s))
                     then [rateLimit (Frequency (ws_RateLimit (conf s))) (Bucket (ws_RateLimit (conf s)))]
                     else [])\<rparr>"
    define w2 where "w2 = w\<lparr>nsocks := Suc (nsocks w),
                          socks := (socks w)(nsocks w := k\<lparr>wcalls := Suc (wcalls k),
                            outbox := outbox k @ [(TextMessage, Raw (handshake s))]\<rparr>)\<rparr>"
    define s1 where "s1 = s\<lparr>eventConn := eventConn s @ [cn]\<rparr>"
    have run: "any x s r w = map_run (Pair s1) (webSocketServer_listenAPI s1 cn w2)"
      using k auth by (simp add: any_cases Let_def cn_def w2_def s1_def)
    have st: "state_of (map_run (Pair s1) q) = (s1, state_of q)" for q :: "world run"
      by (cases q) simp_all
    from listenAPI_frame[OF refl, of s1 cn w2]
    have ob: "outbox (socks (state_of (webSocketServer_listenAPI s1 cn w2)) (nsocks w)) =
        outbox k @ [(TextMessage, Raw (handshake s))]"
      by (simp add: w2_def)
    have "state_of (any x s r w) = (s1, state_of (webSocketServer_listenAPI s1 cn w2))"
      by (simp add: run st)
    moreover have "\<exists>cl. s1 = s\<lparr>eventConn := eventConn s @ [\<lparr>conn = nsocks w, apiCaller = cl\<rparr>]\<rparr>"
      by (auto simp: s1_def cn_def)
    ultimately show ?thesis
      using True k auth ob by simp
  qed
qed

theorem registered_iff_admitted_witness:
  "admitted x1 s0 r_plain \<and>
   eventConn (fst (event x1 s0 r_plain w0)) = eventConn s0 @ [\<lparr>conn = 3, apiCaller = []\<rparr>] \<and>
   outbox (socks (snd (event x1 s0 r_plain w0)) 3) = [(TextMessage, Raw (handshake s0))] \<and>
   length (eventConn (fst (state_of (any x1 s0 r_plain w0)))) = 4 \<and>
   checkAuth x1 r_plain (s_token (s0\<lparr>s_token := ''secret''\<rparr>)) = 401 \<and>
   fst (event x1 (s0\<lparr>s_token := ''secret''\<rparr>) r_plain w0) = s0\<lparr>s_token := ''secret''\<rparr> \<and>
   snd (event x1 (s0\<lparr>s_token := ''secret''\<rparr>) r_plain w0) = emit (WriteHeader 401) w0 \<and>
   fst (state_of (any x1 (s0\<lparr>s_token := ''secret''\<rparr>) r_plain w0)) = s0\<lparr>s_token := ''secret''\<rparr> \<and>
   snd (state_of (any x1 (s0\<lparr>s_token := ''secret''\<rparr>) r_plain w0)) = emit (WriteHeader 401) w0 \<and>
   \<not> admitted x1 s0 (r_plain\<lparr>upgrade := Some (fresh_sock\<lparr>broken := True\<rparr>)\<rparr>) \<and>
   fst (event x1 s0 (r_plain\<lparr>upgrade := Some (fresh_sock\<lparr>broken := True\<rparr>)\<rparr>) w0) = s0 \<and>
   closed (socks (snd (event x1 s0 (r_plain\<lparr>upgrade := Some (fresh_sock\<lparr>broken := True\<rparr>)\<rparr>) w0)) 3) \<and>
   fst (event x1 s0 (r_plain\<lparr>upgrade := None\<rparr>) w0) = s0"
  using registered_iff_admitted[of x1 s0 r_plain w0]
    registered_iff_admitted[of x1 "s0\<lparr>s_token := ''secret''\<rparr>" r_plain w0]
    registered_iff_admitted[of x1 s0 "r_plain\<lparr>upgrade := Some (fresh_sock\<lparr>broken := True\<rparr>)\<rparr>" w0]
    registered_iff_admitted[of x1 s0 "r_plain\<lparr>upgrade := None\<rparr>" w0]
  by (simp add: case_prod_unfold admitted_def x1_def r_plain_def StatusOK_def fresh_sock_def
      NewCaller_def)
     (auto simp: s0_def w0_def)

section \<open>The subscriber set stays well formed\<close>

lemma wf_server_snoc:
  assumes "wf_server s w" and "nsocks w' = Suc (nsocks w)"
  shows "wf_server (s\<lparr>eventConn := eventConn s @ [\<lparr>conn = nsocks w, apiCaller = cl\<rparr>]\<rparr>) w'"
proof -
  have lt: "conn c < nsocks w" if "c \<in> set (eventConn s)" for c :: wsConn
    using assms(1) that by (simp add: wf_server_def)
  then have "nsocks w \<notin> conn ` set (eventConn s)"
    by (metis imageE less_irrefl)
  moreover have "conn c < Suc (nsocks w)" if "c \<in> set (eventConn s)" for c :: wsConn
    using lt[OF that] by simp
  ultimately show ?thesis
    using assms by (simp add: wf_server_def)
qed

lemma wf_server_mono:
  assumes "wf_server s w" and "nsocks w \<le> nsocks w'"
  shows "wf_server s w'"
proof -
  have "conn c < nsocks w'" if "c \<in> set (eventConn s)" for c :: wsConn
    using assms that by (metis wf_server_def less_le_trans)
  with assms(1) show ?thesis
    by (simp add: wf_server_def)
qed

lemma event_wf:
  assumes "wf_server s w" and "event x s r w = (s', w')"
  shows "wf_server s' w'"
proof (cases "admitted x s r")
  case True
  with assms(2) have "s' = s\<lparr>eventConn := eventConn s @ [\<lparr>conn = nsocks w, apiCaller = NewCaller\<rparr>]\<rparr>"
    and "nsocks w' = Suc (nsocks w)"
    by (auto simp: event_cases admitted_def split: option.splits)
  with assms(1) show ?thesis
    by (simp add: wf_server_snoc)
next
  case False
  with assms(2) have "s' = s" and "nsocks w \<le> nsocks w'"
    by (auto simp: event_cases admitted_def emit_def split: option.splits if_splits)
  with assms(1) show ?thesis
    by (simp add: wf_server_mono)
qed

lemma any_wf:
  assumes "wf_server s w" and "state_of (any x s r w) = (s', w')"
  shows "wf_server s' w'"
proof (cases "admitted x s r")
  case False
  with assms(2) have "s' = s" and "nsocks w \<le> nsocks w'"
    by (auto simp: any_cases admitted_def emit_def split: option.splits if_splits)
  with assms(1) show ?thesis
    by (simp add: wf_server_mono)
next
  case True
  from True obtain k0 where "upgrade r = Some k0" "\<not> broken k0" "\<not> closed k0" "\<not> writeErr k0"
    and "checkAuth x r (s_token s) = StatusOK"
    by (auto simp: admitted_def split: option.splits)
  with assms(2)
  obtain cl where s': "s' = s\<lparr>eventConn := eventConn s @ [\<lparr>conn = nsocks w, apiCaller = cl\<rparr>]\<rparr>"
    by (auto simp: any_cases Let_def state_of_map_run_Pair)
  from True obtain k where k: "upgrade r = Some k" "\<not> broken k" "\<not> closed k" "\<not> writeErr k"
    and auth: "checkAuth x r (s_token s) = StatusOK"
    by (auto simp: admitted_def split: option.splits)
  have "nsocks (snd (state_of (any x s r w))) = Suc (nsocks w)"
    using k auth
    by (simp add: any_cases Let_def state_of_map_run_Pair listenAPI_frame[OF refl])
  with assms(2) have "nsocks w' = Suc (nsocks w)"
    by simp
  with assms(1) show ?thesis
    by (simp add: s' wf_server_snoc)
qed

lemma publish_wf:
  assumes "wf_server s w" and "webSocketServer_onBotPushEvent x s e w = (s', w')"
  shows "wf_server s' w'"
proof (cases "rejected x (s_filter s) e")
  case True
  with assms show ?thesis
    by (simp add: webSocketServer_onBotPushEvent_def rejected_def)
next
  case False
  obtain j cs w1 where loop: "onBotPushEvent_loop e 0 0 (eventConn s) w = (j, cs, w1)"
    by (cases "onBotPushEvent_loop e 0 0 (eventConn s) w") auto
  from onBotPushEvent_loop_spec[OF _ _ _ loop] assms(1)
  have "take j cs = filter (\<lambda>c. writable w (conn c)) (eventConn s)" and "nsocks w1 = nsocks w"
    by (auto simp: wf_server_def)
  with assms False loop show ?thesis
    by (auto simp: webSocketServer_onBotPushEvent_def rejected_def wf_server_def distinct_map_filter)
qed

section \<open>Dialling\<close>

lemma connect_dial_fails:
  "net w (ndials w) url = None \<Longrightarrow>
   connect (Suc n) c typ url conptr w =
     (if reconnectInterval c \<noteq> 0
      then connect n c typ url conptr
             (time_Sleep (reconnectInterval c)
                (emit (Dial url (dial_header c typ)) (w\<lparr>ndials := Suc (ndials w)\<rparr>)))
      else Returned (c, emit (Dial url (dial_header c typ)) (w\<lparr>ndials := Suc (ndials w)\<rparr>)))"
  by (simp add: connect.simps Let_def Dialer_Dial_def dial_header_def)

lemma connect_dial_succeeds:
  assumes "net w (ndials w) url = Some sk"
  shows "\<exists>c' w'. connect (Suc n) c typ url conptr w = Returned (c', w') \<and>
     c' = (case conptr of None \<Rightarrow> c | Some p \<Rightarrow> store p (wrapped c (nsocks w)) c) \<and>
     trace w' = trace w @ [Dial url (dial_header c typ)] @
        (if typ \<noteq> ''Event'' then [Go (ListenAPI typ url (wrapped c (nsocks w)))] else []) \<and>
     clock w' = clock w \<and> ndials w' = Suc (ndials w) \<and> nsocks w' = Suc (nsocks w) \<and>
     net w' = net w \<and>
     (\<forall>a. a \<noteq> nsocks w \<longrightarrow> socks w' a = socks w a) \<and>
     closed (socks w' (nsocks w)) = closed sk \<and>
     outbox (socks w' (nsocks w)) =
       (if (typ = ''Event'' \<or> typ = ''Universal'') \<and> \<not> broken sk \<and> \<not> closed sk \<and> \<not> writeErr sk
        then outbox sk @ [(TextMessage, Raw (client_handshake (Uin (c_bot c)) (Unix w)))]
        else outbox sk)"
  using assms
  by (auto simp: connect.simps Let_def Dialer_Dial_def dial_header_def alloc_def emit_def wrapped_def
      NewCaller_def Use_def WriteMessage_def flush_def begin_message_def Unix_def split: option.splits)





section \<open>Role selection\<close>






section \<open>Reading frames\<close>

lemma server_loop_message:
  "\<not> closed (socks w (conn c)) \<Longrightarrow> inbox (socks w (conn c)) = Message t (Some b) # rest \<Longrightarrow>
   webSocketServer_listenAPI_loop c w =
     (if t = TextMessage
      then webSocketServer_listenAPI_loop c (emit (Go (HandleRequest c b)) (consumed (conn c) w))
      else webSocketServer_listenAPI_loop c (consumed (conn c) w))"
  by (subst webSocketServer_listenAPI_loop.simps) (simp add: NextReader_def consumed_def Let_def)

lemma server_loop_blocked:
  "\<not> closed (socks w (conn c)) \<Longrightarrow> inbox (socks w (conn c)) = [] \<Longrightarrow>
   webSocketServer_listenAPI_loop c w = Running w"
  by (subst webSocketServer_listenAPI_loop.simps) (simp add: NextReader_def Let_def)

lemma client_loop_eq_server_loop:
  "websocketClient_listenAPI_loop c w = webSocketServer_listenAPI_loop c w"
proof (induction c w rule: webSocketServer_listenAPI_loop.induct)
  case (1 c w)
  show ?case
    apply (subst websocketClient_listenAPI_loop.simps)
    apply (subst webSocketServer_listenAPI_loop.simps)
    using 1
    apply (auto split: prod.splits reading.splits option.splits)
    done
qed

lemma server_loop_trace:
  "inbox (socks w (conn c)) = xs \<Longrightarrow> \<not> closed (socks w (conn c)) \<Longrightarrow>
   trace (state_of (webSocketServer_listenAPI_loop c w)) =
     trace w @ map (\<lambda>b. Go (HandleRequest c b)) (requests xs)"
proof (induction xs arbitrary: w)
  case Nil
  then show ?case
    by (simp add: server_loop_blocked)
next
  case (Cons x xs)
  show ?case
  proof (cases x)
    case ReaderError
    with Cons.prems show ?thesis
      by (subst webSocketServer_listenAPI_loop.simps) (simp add: NextReader_def Let_def)
  next
    case (Message t body)
    show ?thesis
    proof (cases body)
      case None
      with Message Cons.prems show ?thesis
        by (subst webSocketServer_listenAPI_loop.simps) (simp add: NextReader_def Let_def)
    next
      case (Some b)
      have i: "inbox (socks (consumed (conn c) w) (conn c)) = xs"
        "\<not> closed (socks (consumed (conn c) w) (conn c))"
        "inbox (socks (emit (Go (HandleRequest c b)) (consumed (conn c) w)) (conn c)) = xs"
        "\<not> closed (socks (emit (Go (HandleRequest c b)) (consumed (conn c) w)) (conn c))"
        using Cons.prems by (simp_all add: consumed_def emit_def)
      have t: "trace (consumed (conn c) w) = trace w"
        "trace (emit (Go (HandleRequest c b)) (consumed (conn c) w)) = trace w @ [Go (HandleRequest c b)]"
        by (simp_all add: consumed_def emit_def)
      from Cons.prems Message Some
      have "inbox (socks w (conn c)) = Message t (Some b) # xs"
        by simp
      from server_loop_message[OF Cons.prems(2) this] Cons.IH[OF i(1,2)] Cons.IH[OF i(3,4)]
      show ?thesis
        by (simp add: Message Some t)
    qed
  qed
qed


lemma server_listenAPI_trace:
  "trace (state_of (webSocketServer_listenAPI s c w)) =
     trace (state_of (webSocketServer_listenAPI_loop c w))"
  by (cases "webSocketServer_listenAPI_loop c w")
     (simp_all add: webSocketServer_listenAPI_def wsConn_Close_def Conn_Close_def)

text \<open>
  Claim C10. A message that has been read completely from an open connection, on the
  server and on the client alike: if it is not a text message the read loop goes on as if
  the message had only been taken from the inbox, so that nothing is dispatched, written
  or closed on its account, and with nothing more to read the loop waits for the next
  frame; if it is a text message one dispatcher goroutine is started for its body. Over a whole
  inbox the dispatcher goroutines the server starts are those for the text messages read before
  the first failure.
\<close>

theorem only_text_frames_are_dispatched:
  "\<not> closed (socks w (conn c)) \<Longrightarrow> inbox (socks w (conn c)) = Message t (Some b) # rest \<Longrightarrow>
   (t \<noteq> TextMessage \<longrightarrow>
      webSocketServer_listenAPI s c w = webSocketServer_listenAPI s c (consumed (conn c) w) \<and>
      websocketClient_listenAPI cl ty url c w =
        websocketClient_listenAPI cl ty url c (consumed (conn c) w) \<and>
      (rest = [] \<longrightarrow>
         webSocketServer_listenAPI s c w = Running (consumed (conn c) w) \<and>
         websocketClient_listenAPI cl ty url c w = Running (consumed (conn c) w))) \<and>
   (t = TextMessage \<longrightarrow>
      webSocketServer_listenAPI s c w =
        webSocketServer_listenAPI s c (emit (Go (HandleRequest c b)) (consumed (conn c) w)) \<and>
      websocketClient_listenAPI cl ty url c w =
        websocketClient_listenAPI cl ty url c (emit (Go (HandleRequest c b)) (consumed (conn c) w))) \<and>
   trace (state_of (webSocketServer_listenAPI s c w)) =
     trace w @ map (\<lambda>b. Go (HandleRequest c b)) (requests (Message t (Some b) # rest))"
proof -
  assume op: "\<not> closed (socks w (conn c))" and ib: "inbox (socks w (conn c)) = Message t (Some b) # rest"
  note step = server_loop_message[OF op ib]
  have blocked: "webSocketServer_listenAPI_loop c (consumed (conn c) w) = Running (consumed (conn c) w)"
    if "rest = []"
    using that op ib by (intro server_loop_blocked) (simp_all add: consumed_def)
  have "trace (state_of (webSocketServer_listenAPI s c w)) =
     trace w @ map (\<lambda>b. Go (HandleRequest c b)) (requests (Message t (Some b) # rest))"
    unfolding server_listenAPI_trace using server_loop_trace[OF ib op] .
  then show ?thesis
    using step blocked
    by (auto simp: webSocketServer_listenAPI_def websocketClient_listenAPI_def client_loop_eq_server_loop)
qed

theorem only_text_frames_are_dispatched_witness:
  "\<not> closed (socks (w_in [Message BinaryMessage (Some ''ping'')]) 0) \<and>
   inbox (socks (w_in [Message BinaryMessage (Some ''ping'')]) 0) = [Message BinaryMessage (Some ''ping'')] \<and>
   BinaryMessage \<noteq> TextMessage \<and>
   webSocketServer_listenAPI s0 \<lparr>conn = 0, apiCaller = []\<rparr> (w_in [Message BinaryMessage (Some ''ping'')])
     = Running (consumed 0 (w_in [Message BinaryMessage (Some ''ping'')])) \<and>
   websocketClient_listenAPI c0 ''API'' ''ws://peer/api'' \<lparr>conn = 0, apiCaller = []\<rparr>
       (w_in [Message BinaryMessage (Some ''ping'')])
     = Running (consumed 0 (w_in [Message BinaryMessage (Some ''ping'')])) \<and>
   trace (consumed 0 (w_in [Message BinaryMessage (Some ''ping'')])) = [] \<and>
   outbox (socks (consumed 0 (w_in [Message BinaryMessage (Some ''ping'')])) 0) = [] \<and>
   \<not> closed (socks (consumed 0 (w_in [Message BinaryMessage (Some ''ping'')])) 0) \<and>
   trace (state_of (webSocketServer_listenAPI s0 \<lparr>conn = 0, apiCaller = []\<rparr>
       (w_in [Message TextMessage (Some cmd_no_echo), Message BinaryMessage (Some ''ping'')])))
     = [Go (HandleRequest \<lparr>conn = 0, apiCaller = []\<rparr> cmd_no_echo)]"
proof -
  let ?w = "w_in [Message BinaryMessage (Some ''ping'')]"
  let ?w2 = "w_in [Message TextMessage (Some cmd_no_echo), Message BinaryMessage (Some ''ping'')]"
  let ?c = "\<lparr>conn = 0, apiCaller = []\<rparr> :: wsConn"
  have h: "\<not> closed (socks ?w (conn ?c))" "inbox (socks ?w (conn ?c)) = Message BinaryMessage (Some ''ping'') # []"
    "\<not> closed (socks ?w2 (conn ?c))"
    "inbox (socks ?w2 (conn ?c)) = Message TextMessage (Some cmd_no_echo) # [Message BinaryMessage (Some ''ping'')]"
    by (simp_all add: w_in_def fresh_sock_def)
  have ne: "BinaryMessage \<noteq> TextMessage"
    by (simp add: BinaryMessage_def TextMessage_def)
  have cc: "conn ?c = 0"
    by simp
  from only_text_frames_are_dispatched[OF h(1,2), of s0 c0 "''API''" "''ws://peer/api''", unfolded cc] ne
  have a: "webSocketServer_listenAPI s0 ?c ?w = Running (consumed 0 ?w)"
    "websocketClient_listenAPI c0 ''API'' ''ws://peer/api'' ?c ?w = Running (consumed 0 ?w)"
    by blast+
  have tr0: "trace ?w2 = []"
    by (simp add: w_in_def)
  from only_text_frames_are_dispatched[OF h(3,4), of s0 c0 "''API''" "''ws://peer/api''",
      THEN conjunct2, THEN conjunct2] ne
  have b: "trace (state_of (webSocketServer_listenAPI s0 ?c ?w2)) = [Go (HandleRequest ?c cmd_no_echo)]"
    by (simp add: tr0)
  have c: "trace (consumed 0 ?w) = []" "outbox (socks (consumed 0 ?w) 0) = []"
    "\<not> closed (socks (consumed 0 ?w) 0)"
    by (simp_all add: consumed_def w_in_def fresh_sock_def)
  from h(1,2) ne a b c show ?thesis
    by simp
qed

section \<open>Reconnecting after a read fault\<close>







section \<open>The handshake frame\<close>

lemma server_handshake_extends_client_handshake:
  \<open>server_handshake uin t = ''{"_post_method":2,'' @ tl (client_handshake uin t)\<close>
  by (simp add: server_handshake_def client_handshake_def)

lemma runWSServer_handshake:
  "runWSServer b node w = (Some s, w1) \<Longrightarrow>
   handshake s = server_handshake (Uin b) (Unix w) \<and> eventConn s = [] \<and>
   nsocks w1 = nsocks w \<and> socks w1 = socks w \<and> clock w1 = clock w"
  by (auto simp: runWSServer_def Let_def emit_def split: option.splits if_splits)

text \<open>
  The frame an admitted \<open>/event\<close> connection receives is the string built when the server
  was started: it holds the Unix time of \<open>runWSServer\<close>, whatever the clock shows when the
  connection is accepted.
\<close>

lemma event_handshake_is_from_start:
  assumes "runWSServer b node w = (Some s, w1)" and "admitted x s r"
  shows "outbox (socks (snd (event x s r w2)) (nsocks w2)) =
     outbox (the (upgrade r)) @ [(TextMessage, Raw (server_handshake (Uin b) (Unix w)))]"
  using assms(2) runWSServer_handshake[OF assms(1)]
  by (auto simp: event_cases admitted_def split: option.splits)

lemma FormatInt_examples:
  "FormatInt 10001 = ''10001''" "FormatInt 1000 = ''1000''" "FormatInt 2000 = ''2000''"
  by (simp_all add: FormatInt_def show_nat.simps digit_def)

text \<open>
  Claim C5, at a server started at Unix time 1000 that accepts a connection on \<open>/event\<close>
  at Unix time 2000: the handshake frame the connection receives has the bot identity and
  the fields of the server variant, and its \<open>time\<close> is 1000, the start of the server, not
  the time of the connection.
\<close>

theorem server_handshake_time_is_server_start:
  \<open>\<exists>s w1. runWSServer b0 (Some (conf s0)) w_start = (Some s, w1) \<and>
     Unix w_start = 1000 \<and> Unix (w1\<lparr>clock := 2000000000000\<rparr>) = 2000 \<and>
     admitted x1 s r_plain \<and>
     outbox (socks (snd (event x1 s r_plain (w1\<lparr>clock := 2000000000000\<rparr>))) 3) =
       [(TextMessage, Raw ''{"_post_method":2,"meta_event_type":"lifecycle","post_type":"meta_event","self_id":10001,"sub_type":"connect","time":1000}'')]\<close>
proof -
  obtain s w1 where run: "runWSServer b0 (Some (conf s0)) w_start = (Some s, w1)"
    by (simp add: runWSServer_def s0_def Let_def)
  note h = runWSServer_handshake[OF run]
  have u: "Unix w_start = 1000" "Unix (w1\<lparr>clock := 2000000000000\<rparr>) = 2000"
    by (simp_all add: Unix_def w_start_def)
  have tok: "s_token s = []"
    using run by (auto simp: runWSServer_def s0_def Let_def)
  have adm: "admitted x1 s r_plain"
    by (simp add: admitted_def x1_def tok r_plain_def fresh_sock_def StatusOK_def)
  have n: "nsocks (w1\<lparr>clock := 2000000000000\<rparr>) = 3"
    using h by (simp add: w_start_def w0_def)
  from event_handshake_is_from_start[OF run adm, of "w1\<lparr>clock := 2000000000000\<rparr>"]
  have \<open>outbox (socks (snd (event x1 s r_plain (w1\<lparr>clock := 2000000000000\<rparr>))) 3) =
       [(TextMessage, Raw ''{"_post_method":2,"meta_event_type":"lifecycle","post_type":"meta_event","self_id":10001,"sub_type":"connect","time":1000}'')]\<close>
    unfolding n u
    by (simp add: r_plain_def fresh_sock_def server_handshake_def b0_def FormatInt_examples)
  with run u adm show ?thesis
    by blast
qed

section \<open>Further facts about the model\<close>

text \<open>A server that has just been started has a well-formed, empty subscriber set.\<close>

lemma runWSServer_wf: "runWSServer b node w = (Some s, w1) \<Longrightarrow> wf_server s w1"
  using runWSServer_handshake[of b node w s w1] by (simp add: wf_server_def)

text \<open>
  While the peer stays out of reach and reconnection is on, \<open>connect\<close> has not returned
  after any number of dials: it has made them all and is still running.
\<close>

lemma connect_keeps_dialling:
  "reconnectInterval c \<noteq> 0 \<Longrightarrow> (\<forall>i<fuel. net w (ndials w + i) url = None) \<Longrightarrow>
   \<exists>w'. connect fuel c ty url conptr w = Running (c, w') \<and> ndials w' = ndials w + fuel \<and>
        net w' = net w"
proof (induction fuel arbitrary: w)
  case 0
  then show ?case
    by (simp add: connect.simps)
next
  case (Suc n)
  let ?w1 = "time_Sleep (reconnectInterval c)
                (emit (Dial url (dial_header c ty)) (w\<lparr>ndials := Suc (ndials w)\<rparr>))"
  have w1: "net ?w1 = net w" "ndials ?w1 = Suc (ndials w)"
    by (simp_all add: time_Sleep_def emit_def)
  from Suc.prems(2) have "net w (ndials w) url = None"
    by (metis add.right_neutral zero_less_Suc)
  with Suc.prems(1) have step: "connect (Suc n) c ty url conptr w = connect n c ty url conptr ?w1"
    by (simp add: connect_dial_fails)
  have "\<forall>i<n. net w (Suc (ndials w) + i) url = None"
    using Suc.prems(2) by simp (metis Suc_less_eq add_Suc_right)
  from Suc.IH[of ?w1, unfolded w1, OF Suc.prems(1) this] show ?case
    unfolding step by auto
qed

text \<open>The handshake a dialled Event or Universal connection receives holds the Unix time
  of the dial.\<close>

lemma connect_handshake_is_from_dial:
  assumes "net w (ndials w) url = Some sk" and "ty = ''Event'' \<or> ty = ''Universal''"
    and "\<not> broken sk" "\<not> closed sk" "\<not> writeErr sk"
  shows "outbox (socks (snd (state_of (connect (Suc n) c ty url conptr w))) (nsocks w)) =
     outbox sk @ [(TextMessage, Raw (client_handshake (Uin (c_bot c)) (Unix w)))]"
  using connect_dial_succeeds[OF assms(1), of n c ty conptr] assms(2-)
  by auto

end
